theory Spec2Isabelle
  imports Complex_Main "HOL-Library.Monad_Syntax"
begin

section \<open>The Bank model of socialfinance.py\<close>

text \<open>
  Numbers are real numbers: the rounding, overflow and signed zeros of Python's and
  numpy's float64 are outside the model, so every equation below is an equation of exact
  arithmetic.

  A Python division whose divisor is zero raises ZeroDivisionError; a function that can
  raise returns an option, and \<open>None\<close> is that exception. The elements of the array
  \<open>A\<close> are numpy float64 values, for which a division by zero returns inf or nan (with a
  RuntimeWarning) instead of raising. Inside \<open>breturn\<close> and \<open>nreach\<close> this matters for
  one division only, the quotient of band 2 in \<open>nreach\<close>, whose outcome is a
  \<open>npfloat\<close>; the divisor of \<open>mon\<close> cannot vanish where these two functions call it
  (lemma \<open>band2_divisor_nonzero\<close>).
\<close>

subsection \<open>Data\<close>

record Bank =
  A :: "real list"
  gamma :: real
  beta :: real
  B0 :: real
  alpha :: real
  X :: real
  I :: real
  p :: real
  q :: real
  F :: real
  f :: real
  K :: real
  Amax :: real

text \<open>\<open>Bank.__init__(self, A, beta)\<close>: every field but \<open>A\<close> and \<open>beta\<close> is a constant.\<close>

definition init :: "real list \<Rightarrow> real \<Rightarrow> Bank" where
  "init xs bet =
     \<lparr> A = xs, gamma = 1, beta = bet, B0 = 30, alpha = 1/2, X = 200, I = 100,
       p = 97/100, q = 82/100, F = 0, f = 30, K = 12000, Amax = 140 \<rparr>"

text \<open>Python's \<open>x / y\<close> on Python numbers.\<close>

definition pydiv :: "real \<Rightarrow> real \<Rightarrow> real option" where
  "pydiv x y = (if y = 0 then None else Some (x / y))"

text \<open>
  A cell of a float64 array: a real number, an infinity (of either sign: the sign follows
  the sign of the zero divisor, which the reals do not have) or not-a-number.
\<close>

datatype npfloat = Num real | Infinity | NaN

text \<open>numpy's \<open>x / y\<close> on finite float64 operands.\<close>

definition npdiv :: "real \<Rightarrow> real \<Rightarrow> npfloat" where
  "npdiv x y = (if y \<noteq> 0 then Num (x / y) else if x = 0 then NaN else Infinity)"

subsection \<open>Collateral curves and thresholds\<close>

definition B :: "Bank \<Rightarrow> real \<Rightarrow> real" where
  "B bk m = B0 bk - alpha bk * m"

definition AMe :: "Bank \<Rightarrow> real \<Rightarrow> real option" where
  "AMe bk m = do {
     r \<leftarrow> pydiv (p bk) (p bk - q bk);
     Some (r * B bk m - (p bk * X bk - beta bk * I bk) + m + f bk) }"

definition AM :: "Bank \<Rightarrow> real \<Rightarrow> real option" where
  "AM bk m = do {
     r \<leftarrow> pydiv (p bk) (p bk - q bk);
     s \<leftarrow> pydiv (beta bk - gamma bk) (beta bk);
     t \<leftarrow> pydiv (q bk * m) (p bk - q bk);
     Some (r * B bk m - (p bk * X bk - gamma bk * I bk) + m + s * t + f bk) }"

definition Im_bank :: "Bank \<Rightarrow> real \<Rightarrow> real option" where
  "Im_bank bk m = do {
     r \<leftarrow> pydiv 1 (beta bk);
     pydiv (r * q bk * m) (p bk - q bk) }"

definition mcross :: "Bank \<Rightarrow> real option" where
  "mcross bk = pydiv (beta bk * I bk * (p bk - q bk)) (q bk)"

definition Across :: "Bank \<Rightarrow> real option" where
  "Across bk = do { m \<leftarrow> mcross bk; AM bk m }"

definition mmax :: "Bank \<Rightarrow> real" where
  "mmax bk = p bk * X bk - beta bk * I bk - f bk"

definition Amin :: "Bank \<Rightarrow> real option" where
  "Amin bk = AMe bk (mmax bk)"

subsection \<open>Optimal monitoring\<close>

text \<open>
  The divisor of \<open>mon\<close>. With a Python float argument a zero divisor raises; with a
  float64 element the quotient is inf or nan. Both are \<open>None\<close> here.
\<close>

definition mon_divisor :: "Bank \<Rightarrow> real" where
  "mon_divisor bk = (alpha bk - 1) * beta bk * p bk + gamma bk * q bk"

definition mon :: "Bank \<Rightarrow> real \<Rightarrow> real option" where
  "mon bk a = do {
     AHI \<leftarrow> AM bk 0;
     pydiv ((AHI - a) * (beta bk * (p bk - q bk))) (mon_divisor bk) }"

definition monE_divisor :: "Bank \<Rightarrow> real" where
  "monE_divisor bk = q bk + (alpha bk - 1) * p bk"

definition monE :: "Bank \<Rightarrow> real \<Rightarrow> real option" where
  "monE bk a = do {
     AHI \<leftarrow> AMe bk 0;
     r \<leftarrow> pydiv (p bk - q bk) (monE_divisor bk);
     Some ((AHI - a) * r) }"

subsection \<open>Borrower return and borrowers reached\<close>

text \<open>
  One element of the list comprehension of \<open>breturn\<close>. The conditions are evaluated in
  the order of the source, \<open>and\<close> evaluating its right operand only when the left one is
  true.
\<close>

definition band2_return :: "Bank \<Rightarrow> real \<Rightarrow> real option" where
  "band2_return bk a = do {
     m \<leftarrow> mon bk a;
     s \<leftarrow> pydiv (beta bk - gamma bk) (beta bk);
     t \<leftarrow> pydiv (q bk) (p bk - q bk);
     Some (p bk * X bk - gamma bk * I bk - f bk - m * (1 + s * t)) }"

definition band3_return :: "Bank \<Rightarrow> real \<Rightarrow> real option" where
  "band3_return bk a = do {
     m \<leftarrow> monE bk a;
     Some (p bk * X bk - beta bk * I bk - f bk - m) }"

definition breturn_elem :: "Bank \<Rightarrow> real \<Rightarrow> real option" where
  "breturn_elem bk a = do {
     a0 \<leftarrow> AM bk 0;
     if a > a0 then Some (p bk * X bk - gamma bk * I bk - f bk)
     else do {
       ac \<leftarrow> Across bk;
       if a \<le> a0 \<and> a > ac then band2_return bk a
       else if a \<le> ac then do {
         am \<leftarrow> Amin bk;
         if a \<ge> am then band3_return bk a else Some 0 }
       else Some 0 } }"

text \<open>The comprehension: the first exception ends the call.\<close>

definition breturn :: "Bank \<Rightarrow> real list \<Rightarrow> real list option" where
  "breturn bk xs = those (map (breturn_elem bk) xs)"

definition band2_reach :: "Bank \<Rightarrow> real \<Rightarrow> npfloat option" where
  "band2_reach bk a = do {
     m \<leftarrow> mon bk a;
     e \<leftarrow> Im_bank bk m;
     Some (npdiv (K bk) (e - F bk)) }"

definition nreach_elem :: "Bank \<Rightarrow> real \<Rightarrow> npfloat option" where
  "nreach_elem bk a = do {
     a0 \<leftarrow> AM bk 0;
     if a > a0 then Some NaN
     else do {
       ac \<leftarrow> Across bk;
       if a \<le> a0 \<and> a > ac then band2_reach bk a
       else if a \<le> ac then do {
         am \<leftarrow> Amin bk;
         if a \<ge> am then map_option Num (pydiv (K bk) (I bk + F bk)) else Some (Num 0) }
       else Some (Num 0) } }"

definition nreach :: "Bank \<Rightarrow> real list \<Rightarrow> npfloat list option" where
  "nreach bk xs = those (map (nreach_elem bk) xs)"

subsection \<open>The parameter constraints and the dispatch of the specification\<close>

text \<open>
  The constraints that section 3 of the specification puts on a parameter set. The code
  checks none of them; they are the meaning of "valid parameter set" below.
\<close>

definition spec_valid :: "Bank \<Rightarrow> bool" where
  "spec_valid bk \<longleftrightarrow>
     0 < gamma bk \<and> 0 < beta bk \<and> 0 \<le> alpha bk \<and> 0 < X bk \<and> 0 < I bk \<and>
     0 < q bk \<and> q bk < p bk \<and> p bk \<le> 1 \<and> 0 \<le> F bk \<and> 0 \<le> f bk \<and> 0 \<le> K bk"

text \<open>
  The closed forms of section 4.1 of the specification, written from its words over the
  reals (with HOL's total division), to be compared with the functions of the code.
\<close>

definition privateBenefit :: "Bank \<Rightarrow> real \<Rightarrow> real" where
  "privateBenefit bk m = B0 bk - alpha bk * m"

definition collateralEquityOnly :: "Bank \<Rightarrow> real \<Rightarrow> real" where
  "collateralEquityOnly bk m =
     (p bk / (p bk - q bk)) * privateBenefit bk m - (p bk * X bk - beta bk * I bk) + m + f bk"

definition collateralLeveraged :: "Bank \<Rightarrow> real \<Rightarrow> real" where
  "collateralLeveraged bk m =
     (p bk / (p bk - q bk)) * privateBenefit bk m - (p bk * X bk - gamma bk * I bk) + m
     + ((beta bk - gamma bk) / beta bk) * (q bk * m / (p bk - q bk)) + f bk"

definition mCross :: "Bank \<Rightarrow> real" where
  "mCross bk = beta bk * I bk * (p bk - q bk) / q bk"

definition across :: "Bank \<Rightarrow> real" where
  "across bk = collateralLeveraged bk (mCross bk)"

definition mMax :: "Bank \<Rightarrow> real" where
  "mMax bk = p bk * X bk - beta bk * I bk - f bk"

definition aMin :: "Bank \<Rightarrow> real" where
  "aMin bk = collateralEquityOnly bk (mMax bk)"

definition optimalMonitoringLeveraged :: "Bank \<Rightarrow> real \<Rightarrow> real" where
  "optimalMonitoringLeveraged bk a =
     (collateralLeveraged bk 0 - a) * beta bk * (p bk - q bk)
     / ((alpha bk - 1) * beta bk * p bk + gamma bk * q bk)"

definition optimalMonitoringEquityOnly :: "Bank \<Rightarrow> real \<Rightarrow> real" where
  "optimalMonitoringEquityOnly bk a =
     (collateralEquityOnly bk 0 - a) * (p bk - q bk) / (q bk + (alpha bk - 1) * p bk)"

definition monitorEquityRequirement :: "Bank \<Rightarrow> real \<Rightarrow> real" where
  "monitorEquityRequirement bk m = (1 / beta bk) * q bk * m / (p bk - q bk)"

text \<open>The four bands, from the highest asset level to the lowest.\<close>

definition borrowerReturn :: "Bank \<Rightarrow> real \<Rightarrow> real" where
  "borrowerReturn bk a =
     (if a > collateralLeveraged bk 0 then p bk * X bk - gamma bk * I bk - f bk
      else if across bk < a \<and> a \<le> collateralLeveraged bk 0 then
        p bk * X bk - gamma bk * I bk - f bk
        - optimalMonitoringLeveraged bk a
          * (1 + ((beta bk - gamma bk) / beta bk) * (q bk / (p bk - q bk)))
      else if aMin bk \<le> a \<and> a \<le> across bk then
        p bk * X bk - beta bk * I bk - f bk - optimalMonitoringEquityOnly bk a
      else 0)"



subsection \<open>Three further parameter sets\<close>

text \<open>
  Banks whose attributes have been assigned after construction. All satisfy the
  constraints of the specification. In the first the divisor of \<open>mon\<close> is zero, in
  the second the divisor of \<open>monE\<close> is zero; in the third the project does not pay
  for itself and the divisor of \<open>monE\<close> is negative.
\<close>

definition bank_zero_divisor :: Bank where
  "bank_zero_divisor =
     \<lparr> A = [], gamma = 1, beta = 2, B0 = 300, alpha = 3/4, X = 1000, I = 100,
       p = 1/2, q = 1/4, F = 0, f = 30, K = 12000, Amax = 140 \<rparr>"

definition bank_zero_monE_divisor :: Bank where
  "bank_zero_monE_divisor =
     \<lparr> A = [], gamma = 1, beta = 2, B0 = 300, alpha = 1/2, X = 1000, I = 100,
       p = 1/2, q = 1/4, F = 0, f = 30, K = 12000, Amax = 140 \<rparr>"

definition bank_unprofitable :: Bank where
  "bank_unprofitable =
     \<lparr> A = [], gamma = 1, beta = 1, B0 = 30, alpha = 0, X = 100, I = 100,
       p = 1/2, q = 1/4, F = 0, f = 0, K = 12000, Amax = 140 \<rparr>"

section \<open>Closed forms of the code's functions\<close>

lemma AMe_Some:
  "p bk \<noteq> q bk \<Longrightarrow>
   AMe bk m = Some (p bk / (p bk - q bk) * B bk m - (p bk * X bk - beta bk * I bk) + m + f bk)"
  by (simp add: AMe_def pydiv_def)

lemma AM_Some:
  "p bk \<noteq> q bk \<Longrightarrow> beta bk \<noteq> 0 \<Longrightarrow>
   AM bk m = Some (p bk / (p bk - q bk) * B bk m - (p bk * X bk - gamma bk * I bk) + m
                   + (beta bk - gamma bk) / beta bk * (q bk * m / (p bk - q bk)) + f bk)"
  by (simp add: AM_def pydiv_def)

lemma AM_None: "AM bk m = None \<longleftrightarrow> p bk = q bk \<or> beta bk = 0"
  by (auto simp add: AM_def pydiv_def split: bind_splits)

lemma AMe_None: "AMe bk m = None \<longleftrightarrow> p bk = q bk"
  by (auto simp add: AMe_def pydiv_def split: bind_splits)

lemma mcross_Some: "q bk \<noteq> 0 \<Longrightarrow> mcross bk = Some (beta bk * I bk * (p bk - q bk) / q bk)"
  by (simp add: mcross_def pydiv_def)

lemma Across_None: "Across bk = None \<longleftrightarrow> q bk = 0 \<or> p bk = q bk \<or> beta bk = 0"
  by (cases "q bk = 0") (simp_all add: Across_def mcross_def pydiv_def AM_None)

text \<open>Both collateral curves are affine in the monitoring level.\<close>

lemma AM_linear:
  assumes "p bk \<noteq> q bk" "beta bk \<noteq> 0" "AM bk 0 = Some a0"
  shows "AM bk m = Some (a0 - m * mon_divisor bk / (beta bk * (p bk - q bk)))"
proof -
  define d where "d = p bk - q bk"
  have pe: "p bk = q bk + d" and d: "d \<noteq> 0" using assms(1) by (simp_all add: d_def)
  have a0: "a0 = p bk / (p bk - q bk) * B0 bk - (p bk * X bk - gamma bk * I bk) + f bk"
    using assms by (simp add: AM_Some B_def)
  show ?thesis
    unfolding a0 AM_Some[OF assms(1,2)] B_def mon_divisor_def pe using assms(2) d
    by (simp add: field_simps)
qed

lemma AMe_linear:
  assumes "p bk \<noteq> q bk" "AMe bk 0 = Some e0"
  shows "AMe bk m = Some (e0 - m * monE_divisor bk / (p bk - q bk))"
proof -
  define d where "d = p bk - q bk"
  have pe: "p bk = q bk + d" and d: "d \<noteq> 0" using assms(1) by (simp_all add: d_def)
  have e0: "e0 = p bk / (p bk - q bk) * B0 bk - (p bk * X bk - beta bk * I bk) + f bk"
    using assms by (simp add: AMe_Some B_def)
  show ?thesis
    unfolding e0 AMe_Some[OF assms(1)] B_def monE_divisor_def pe using d
    by (simp add: field_simps)
qed

lemma AMe_AM_zero:
  assumes "p bk \<noteq> q bk" "beta bk \<noteq> 0" "AM bk 0 = Some a0"
  shows "AMe bk 0 = Some (a0 + (beta bk - gamma bk) * I bk)"
  using assms by (simp add: AM_Some AMe_Some B_def) (simp add: field_simps)

text \<open>The two divisors of the monitoring formulas are related.\<close>

lemma divisors_relation:
  "(beta bk - gamma bk) * q bk + mon_divisor bk = beta bk * monE_divisor bk"
  by (simp add: mon_divisor_def monE_divisor_def algebra_simps)

lemma Across_linear:
  assumes "p bk \<noteq> q bk" "beta bk \<noteq> 0" "q bk \<noteq> 0" "AM bk 0 = Some a0"
  shows "Across bk = Some (a0 - I bk * mon_divisor bk / q bk)"
proof -
  have "AM bk (beta bk * I bk * (p bk - q bk) / q bk)
        = Some (a0 - I bk * mon_divisor bk / q bk)"
    using assms by (simp add: AM_linear[OF assms(1,2,4)])
  then show ?thesis using assms(3) by (simp add: Across_def mcross_Some)
qed

lemma Amin_linear:
  assumes "p bk \<noteq> q bk" "beta bk \<noteq> 0" "AM bk 0 = Some a0"
  shows "Amin bk = Some (a0 + (beta bk - gamma bk) * I bk
                          - mmax bk * monE_divisor bk / (p bk - q bk))"
  unfolding Amin_def
  by (rule AMe_linear[OF assms(1) AMe_AM_zero[OF assms]])

lemma AMe_mcross:
  assumes "p bk \<noteq> q bk" "beta bk \<noteq> 0" "q bk \<noteq> 0" "AM bk 0 = Some a0"
  shows "AMe bk (beta bk * I bk * (p bk - q bk) / q bk)
         = Some (a0 - I bk * mon_divisor bk / q bk)"
proof -
  have "(beta bk * I bk * (p bk - q bk) / q bk) * monE_divisor bk / (p bk - q bk)
        = I bk * (beta bk * monE_divisor bk) / q bk"
    using assms(1) by simp
  also have "\<dots> = I bk * ((beta bk - gamma bk) * q bk + mon_divisor bk) / q bk"
    by (simp only: divisors_relation)
  also have "\<dots> = (beta bk - gamma bk) * I bk + I bk * mon_divisor bk / q bk"
    using assms(3) by (simp add: field_simps)
  finally have eq:
    "a0 + (beta bk - gamma bk) * I bk
       - (beta bk * I bk * (p bk - q bk) / q bk) * monE_divisor bk / (p bk - q bk)
     = a0 - I bk * mon_divisor bk / q bk"
    by simp
  show ?thesis
    by (simp only: AMe_linear[OF assms(1) AMe_AM_zero[OF assms(1,2,4)]] eq)
qed

section \<open>The crossing point of the collateral curves\<close>

text \<open>
  Claim C3. For every parameter set with \<open>q \<noteq> 0\<close>, \<open>p \<noteq> q\<close> and \<open>\<beta> \<noteq> 0\<close> (as the
  constraints of the specification give), \<open>mcross()\<close> returns
  \<open>\<beta>\<cdot>I\<cdot>(p - q)/q\<close>, and \<open>AM\<close> and \<open>AMe\<close> both return, with the same value, at that
  monitoring level: the leveraged and the equity-only collateral curves coincide there.
\<close>

theorem curves_coincide_at_mcross:
  assumes "q bk \<noteq> 0" "p bk \<noteq> q bk" "beta bk \<noteq> 0"
  shows "\<exists>m v. mcross bk = Some m \<and> m = beta bk * I bk * (p bk - q bk) / q bk
               \<and> AM bk m = Some v \<and> AMe bk m = Some v"
proof -
  obtain a0 where a0: "AM bk 0 = Some a0"
    using AM_Some[OF assms(2,3)] by blast
  have "AM bk (beta bk * I bk * (p bk - q bk) / q bk)
        = Some (a0 - I bk * mon_divisor bk / q bk)"
    using assms by (simp add: AM_linear[OF assms(2,3) a0])
  with AMe_mcross[OF assms(2,3,1) a0] mcross_Some[OF assms(1)] show ?thesis by simp
qed

theorem curves_coincide_at_mcross_witness:
  "q (init [] 1) \<noteq> 0 \<and> p (init [] 1) \<noteq> q (init [] 1) \<and> beta (init [] 1) \<noteq> 0
   \<and> (\<exists>m v. mcross (init [] 1) = Some m \<and> m = 750 / 41
          \<and> AM (init [] 1) m = Some v \<and> AMe (init [] 1) m = Some v)"
  using curves_coincide_at_mcross[of "init [] 1"] by (simp add: init_def)

section \<open>The concrete scenario\<close>

text \<open>
  Claim C8. The bank built by \<open>Bank(A, 1.0)\<close> has the parameters p = 0.97, q = 0.82,
  X = 200, I = 100, f = 30, F = 0, \<beta> = 1, \<gamma> = 1, B0 = 30, \<alpha> = 0.5; its \<open>mmax()\<close>
  is 0.97\<cdot>200 - 1\<cdot>100 - 30 = 64 and its \<open>mcross()\<close> returns 1\<cdot>100\<cdot>(0.97 - 0.82)/0.82,
  which is 18.29 to two decimals.
\<close>

theorem concrete_scenario:
  "gamma (init xs 1) = 1 \<and> beta (init xs 1) = 1 \<and> B0 (init xs 1) = 30
   \<and> alpha (init xs 1) = 1/2 \<and> X (init xs 1) = 200 \<and> I (init xs 1) = 100
   \<and> p (init xs 1) = 97/100 \<and> q (init xs 1) = 82/100 \<and> F (init xs 1) = 0
   \<and> f (init xs 1) = 30
   \<and> mmax (init xs 1) = 97/100 * 200 - 1 * 100 - 30
   \<and> mmax (init xs 1) = 64
   \<and> mcross (init xs 1) = Some (1 * 100 * (97/100 - 82/100) / (82/100))
   \<and> \<bar>1 * 100 * (97/100 - 82/100) / (82/100) - 1829/100\<bar> < (5/1000 :: real)"
  by (simp add: init_def mmax_def mcross_def pydiv_def)

section \<open>The code computes the closed forms of the specification\<close>

lemma AM_spec: "p bk \<noteq> q bk \<Longrightarrow> beta bk \<noteq> 0 \<Longrightarrow> AM bk m = Some (collateralLeveraged bk m)"
  by (simp add: AM_Some collateralLeveraged_def privateBenefit_def B_def)

lemma AMe_spec: "p bk \<noteq> q bk \<Longrightarrow> AMe bk m = Some (collateralEquityOnly bk m)"
  by (simp add: AMe_Some collateralEquityOnly_def privateBenefit_def B_def)

lemma mcross_spec: "q bk \<noteq> 0 \<Longrightarrow> mcross bk = Some (mCross bk)"
  by (simp add: mcross_Some mCross_def)

lemma Across_spec:
  "q bk \<noteq> 0 \<Longrightarrow> p bk \<noteq> q bk \<Longrightarrow> beta bk \<noteq> 0 \<Longrightarrow> Across bk = Some (across bk)"
  by (simp add: Across_def mcross_spec AM_spec across_def)

lemma Amin_spec: "p bk \<noteq> q bk \<Longrightarrow> Amin bk = Some (aMin bk)"
  by (simp add: Amin_def AMe_spec aMin_def mmax_def mMax_def)

lemma mon_spec:
  "p bk \<noteq> q bk \<Longrightarrow> beta bk \<noteq> 0 \<Longrightarrow> mon_divisor bk \<noteq> 0 \<Longrightarrow>
   mon bk a = Some (optimalMonitoringLeveraged bk a)"
  by (simp add: mon_def AM_spec pydiv_def optimalMonitoringLeveraged_def mon_divisor_def
                mult.assoc)

lemma mon_None:
  "mon bk a = None \<longleftrightarrow> p bk = q bk \<or> beta bk = 0 \<or> mon_divisor bk = 0"
proof (cases "p bk = q bk \<or> beta bk = 0")
  case True
  then have "AM bk 0 = None" by (simp add: AM_None)
  then show ?thesis using True by (auto simp add: mon_def)
next
  case False
  then show ?thesis by (simp add: mon_def AM_spec pydiv_def)
qed

lemma monE_spec:
  "p bk \<noteq> q bk \<Longrightarrow> monE_divisor bk \<noteq> 0 \<Longrightarrow>
   monE bk a = Some (optimalMonitoringEquityOnly bk a)"
  by (simp add: monE_def AMe_spec pydiv_def optimalMonitoringEquityOnly_def monE_divisor_def)

lemma monE_None: "monE bk a = None \<longleftrightarrow> p bk = q bk \<or> monE_divisor bk = 0"
proof (cases "p bk = q bk")
  case True
  then have "AMe bk 0 = None" by (simp add: AMe_None)
  then show ?thesis using True by (auto simp add: monE_def)
next
  case False
  then show ?thesis by (simp add: monE_def AMe_spec pydiv_def)
qed

lemma Im_spec:
  "p bk \<noteq> q bk \<Longrightarrow> beta bk \<noteq> 0 \<Longrightarrow> Im_bank bk m = Some (monitorEquityRequirement bk m)"
  by (simp add: Im_bank_def pydiv_def monitorEquityRequirement_def)

lemma across_linear:
  assumes "p bk \<noteq> q bk" "beta bk \<noteq> 0" "q bk \<noteq> 0"
  shows "across bk = collateralLeveraged bk 0 - I bk * mon_divisor bk / q bk"
  using Across_linear[OF assms AM_spec[OF assms(1,2)]] Across_spec[OF assms(3,1,2)] by simp

lemma aMin_linear:
  assumes "p bk \<noteq> q bk" "beta bk \<noteq> 0"
  shows "aMin bk = collateralLeveraged bk 0 + (beta bk - gamma bk) * I bk
                   - mmax bk * monE_divisor bk / (p bk - q bk)"
  using Amin_linear[OF assms AM_spec[OF assms]] Amin_spec[OF assms(1)] by simp

lemma collateralEquityOnly_zero:
  assumes "p bk \<noteq> q bk" "beta bk \<noteq> 0"
  shows "collateralEquityOnly bk 0 = collateralLeveraged bk 0 + (beta bk - gamma bk) * I bk"
  using AMe_AM_zero[OF assms AM_spec[OF assms]] AMe_spec[OF assms(1), of 0] by simp

text \<open>Band 2 is empty unless the divisor of mon is positive.\<close>

lemma band2_divisor_pos:
  assumes "0 < q bk" "q bk < p bk" "beta bk \<noteq> 0" "0 \<le> I bk"
    and "across bk < a" "a \<le> collateralLeveraged bk 0"
  shows "0 < mon_divisor bk"
proof -
  have "0 < I bk * mon_divisor bk / q bk"
    using across_linear[of bk] assms by simp
  then have "0 < I bk * mon_divisor bk" using assms(1) by (simp add: zero_less_divide_iff)
  then show ?thesis using assms(4) by (simp add: zero_less_mult_iff)
qed

lemma band2_divisor_nonzero:
  assumes "q bk \<noteq> 0" "p bk \<noteq> q bk" "beta bk \<noteq> 0"
    and "across bk < a" "a \<le> collateralLeveraged bk 0"
  shows "mon_divisor bk \<noteq> 0"
proof
  assume "mon_divisor bk = 0"
  then have "across bk = collateralLeveraged bk 0"
    using across_linear[OF assms(2,3,1)] by simp
  then show False using assms(4,5) by simp
qed

section \<open>The order of the thresholds\<close>

lemma Amin_Across_diff:
  assumes "p bk \<noteq> q bk" "q bk \<noteq> 0"
  shows "(beta bk - gamma bk) * I bk - mmax bk * monE_divisor bk / (p bk - q bk)
           + I bk * mon_divisor bk / q bk
         = (beta bk * I bk * (p bk - q bk) / q bk - mmax bk) * monE_divisor bk / (p bk - q bk)"
proof -
  have "I bk * mon_divisor bk / q bk
        = I bk * (beta bk * monE_divisor bk - (beta bk - gamma bk) * q bk) / q bk"
    by (simp only: divisors_relation[symmetric]) simp
  also have "\<dots> = beta bk * I bk * monE_divisor bk / q bk - (beta bk - gamma bk) * I bk"
    using assms(2) by (simp add: field_simps)
  finally have 1: "I bk * mon_divisor bk / q bk
        = beta bk * I bk * monE_divisor bk / q bk - (beta bk - gamma bk) * I bk" .
  have 2: "(beta bk * I bk * (p bk - q bk) / q bk - mmax bk) * monE_divisor bk / (p bk - q bk)
        = beta bk * I bk * monE_divisor bk / q bk - mmax bk * monE_divisor bk / (p bk - q bk)"
    using assms(1) by (simp add: diff_divide_distrib left_diff_distrib)
  show ?thesis unfolding 1 2 by simp
qed

text \<open>
  Claim C2, as amended. For every parameter set with \<open>0 < q < p\<close>, \<open>0 < \<beta>\<close> and
  \<open>0 < I\<close> the three thresholds are defined, \<open>Amin() \<le> Across()\<close> holds exactly when
  \<open>(mmax() - mcross()) \<cdot> (q + (\<alpha> - 1)\<cdot>p)\<close> is not negative, and \<open>Across() \<le> AM(0)\<close>
  holds exactly when \<open>(\<alpha> - 1)\<cdot>\<beta>\<cdot>p + \<gamma>\<cdot>q\<close> is not negative. The constraints of the
  specification alone do not give the order.
\<close>

theorem threshold_order_characterised:
  assumes "0 < q bk" "q bk < p bk" "0 < beta bk" "0 < I bk"
  shows "\<exists>am ac a0 mc. Amin bk = Some am \<and> Across bk = Some ac \<and> AM bk 0 = Some a0
           \<and> mcross bk = Some mc
           \<and> (am \<le> ac \<longleftrightarrow> 0 \<le> (mmax bk - mc) * monE_divisor bk)
           \<and> (ac \<le> a0 \<longleftrightarrow> 0 \<le> mon_divisor bk)"
proof -
  have pq: "p bk \<noteq> q bk" and b: "beta bk \<noteq> 0" and q0: "q bk \<noteq> 0" using assms by auto
  obtain a0 where a0: "AM bk 0 = Some a0" using AM_Some[OF pq b] by blast
  define mc where "mc = beta bk * I bk * (p bk - q bk) / q bk"
  define ac where "ac = a0 - I bk * mon_divisor bk / q bk"
  define am where "am = a0 + (beta bk - gamma bk) * I bk
                          - mmax bk * monE_divisor bk / (p bk - q bk)"
  have ac: "Across bk = Some ac" unfolding ac_def by (rule Across_linear[OF pq b q0 a0])
  have am: "Amin bk = Some am" unfolding am_def by (rule Amin_linear[OF pq b a0])
  have mc: "mcross bk = Some mc" unfolding mc_def by (rule mcross_Some[OF q0])
  have "am - ac = (mc - mmax bk) * monE_divisor bk / (p bk - q bk)"
    using Amin_Across_diff[OF pq q0] by (simp add: am_def ac_def mc_def)
  then have "am \<le> ac \<longleftrightarrow> (mc - mmax bk) * monE_divisor bk / (p bk - q bk) \<le> 0"
    by linarith
  also have "\<dots> \<longleftrightarrow> (mc - mmax bk) * monE_divisor bk \<le> 0"
    using assms(2) by (simp add: divide_le_0_iff)
  also have "\<dots> \<longleftrightarrow> 0 \<le> (mmax bk - mc) * monE_divisor bk"
    by (simp add: algebra_simps)
  finally have 1: "am \<le> ac \<longleftrightarrow> 0 \<le> (mmax bk - mc) * monE_divisor bk" .
  have "ac \<le> a0 \<longleftrightarrow> 0 \<le> I bk * mon_divisor bk / q bk" by (simp add: ac_def)
  also have "\<dots> \<longleftrightarrow> 0 \<le> mon_divisor bk"
    using assms(1,4) by (simp add: zero_le_divide_iff zero_le_mult_iff)
  finally have 2: "ac \<le> a0 \<longleftrightarrow> 0 \<le> mon_divisor bk" .
  show ?thesis using a0 ac am mc 1 2 by blast
qed

theorem threshold_order_characterised_witness:
  "0 < q (init [] 1) \<and> q (init [] 1) < p (init [] 1) \<and> 0 < beta (init [] 1)
   \<and> 0 < I (init [] 1)
   \<and> (\<exists>am ac a0. Amin (init [] 1) = Some am \<and> Across (init [] 1) = Some ac
         \<and> AM (init [] 1) 0 = Some a0 \<and> am \<le> ac \<and> ac \<le> a0)"
proof -
  have h: "0 < q (init [] 1)" "q (init [] 1) < p (init [] 1)" "0 < beta (init [] 1)"
    "0 < I (init [] 1)"
    by (simp_all add: init_def)
  obtain am ac a0 mc where v: "Amin (init [] 1) = Some am" "Across (init [] 1) = Some ac"
      "AM (init [] 1) 0 = Some a0" "mcross (init [] 1) = Some mc"
      "am \<le> ac \<longleftrightarrow> 0 \<le> (mmax (init [] 1) - mc) * monE_divisor (init [] 1)"
      "ac \<le> a0 \<longleftrightarrow> 0 \<le> mon_divisor (init [] 1)"
    using threshold_order_characterised[OF h] by blast
  have mc: "mc = 750 / 41" using v(4) by (simp add: mcross_def init_def pydiv_def)
  have "0 \<le> mon_divisor (init [] 1)" by (simp add: mon_divisor_def init_def)
  moreover have "0 \<le> (mmax (init [] 1) - mc) * monE_divisor (init [] 1)"
    unfolding mc by (simp add: mmax_def monE_divisor_def init_def)
  ultimately show ?thesis using h v by blast
qed

text \<open>
  The claim as stated fails for \<open>Bank(A, 2.0)\<close>, whose parameters satisfy every
  constraint of the specification: \<open>Across()\<close> is 6080/41 (about 148.3), above
  \<open>AM(0) = 130\<close>. It fails for \<open>Bank(A, 1.5)\<close> too: \<open>Amin()\<close> is 2231/15 (about
  148.7), above \<open>Across() = 9735/82\<close> (about 118.7).
\<close>

theorem threshold_order_counterexample:
  "spec_valid (init [] 2) \<and> AM (init [] 2) 0 = Some 130
   \<and> Across (init [] 2) = Some (6080 / 41) \<and> \<not> (6080 / 41 \<le> (130 :: real))
   \<and> spec_valid (init [] (3/2)) \<and> Amin (init [] (3/2)) = Some (2231 / 15)
   \<and> Across (init [] (3/2)) = Some (9735 / 82) \<and> \<not> (2231 / 15 \<le> (9735 / 82 :: real))"
  by (simp add: spec_valid_def init_def Across_def mcross_def AM_def B_def pydiv_def
        Amin_def AMe_def mmax_def)

section \<open>The four-band dispatch of breturn\<close>

lemma those_map_Some:
  "(\<And>x. x \<in> set xs \<Longrightarrow> g x = Some (h x)) \<Longrightarrow> those (map g xs) = Some (map h xs)"
  by (induction xs) simp_all

lemma those_map_eq:
  "those (map g xs) = Some ys \<Longrightarrow> (\<And>x y. x \<in> set xs \<Longrightarrow> g x = Some y \<Longrightarrow> y = h x)
   \<Longrightarrow> ys = map h xs"
proof (induction xs arbitrary: ys)
  case Nil
  then show ?case by simp
next
  case (Cons x xs)
  from Cons.prems(1) obtain y zs where y: "g x = Some y" and zs: "those (map g xs) = Some zs"
    and ys: "ys = y # zs"
    by (auto split: option.splits)
  have "zs = map h xs" using Cons.IH[OF zs] Cons.prems(2) by simp
  moreover have "y = h x" using Cons.prems(2)[of x y] y by simp
  ultimately show ?case using ys by simp
qed

lemma band_factor:
  assumes "p bk \<noteq> q bk" "beta bk \<noteq> 0"
  shows "pydiv (beta bk - gamma bk) (beta bk) = Some ((beta bk - gamma bk) / beta bk)"
    and "pydiv (q bk) (p bk - q bk) = Some (q bk / (p bk - q bk))"
  using assms by (simp_all add: pydiv_def)

lemma band2_return_spec:
  assumes "p bk \<noteq> q bk" "beta bk \<noteq> 0" "mon_divisor bk \<noteq> 0"
  shows "band2_return bk a = Some (p bk * X bk - gamma bk * I bk - f bk
           - optimalMonitoringLeveraged bk a
             * (1 + ((beta bk - gamma bk) / beta bk) * (q bk / (p bk - q bk))))"
  by (simp add: band2_return_def mon_spec[OF assms] band_factor[OF assms(1,2)])

lemma band3_return_spec:
  assumes "p bk \<noteq> q bk" "monE_divisor bk \<noteq> 0"
  shows "band3_return bk a
         = Some (p bk * X bk - beta bk * I bk - f bk - optimalMonitoringEquityOnly bk a)"
  by (simp add: band3_return_def monE_spec[OF assms])

lemma breturn_elem_unfold:
  assumes "q bk \<noteq> 0" "p bk \<noteq> q bk" "beta bk \<noteq> 0"
  shows "breturn_elem bk a =
     (if a > collateralLeveraged bk 0 then Some (p bk * X bk - gamma bk * I bk - f bk)
      else if across bk < a \<and> a \<le> collateralLeveraged bk 0 then band2_return bk a
      else if aMin bk \<le> a \<and> a \<le> across bk then band3_return bk a
      else Some 0)"
  by (simp add: breturn_elem_def AM_spec[OF assms(2,3)] Across_spec[OF assms] Amin_spec[OF assms(2)])

lemma breturn_elem_band1:
  assumes "p bk \<noteq> q bk" "beta bk \<noteq> 0" "a > collateralLeveraged bk 0"
  shows "breturn_elem bk a = Some (p bk * X bk - gamma bk * I bk - f bk)"
  using assms(3) by (simp add: breturn_elem_def AM_spec[OF assms(1,2)])

lemma breturn_elem_total:
  assumes "q bk \<noteq> 0" "p bk \<noteq> q bk" "beta bk \<noteq> 0" "monE_divisor bk \<noteq> 0"
  shows "breturn_elem bk a = Some (borrowerReturn bk a)"
proof (cases "across bk < a \<and> a \<le> collateralLeveraged bk 0")
  case True
  then have "mon_divisor bk \<noteq> 0" using band2_divisor_nonzero[OF assms(1,2,3)] by blast
  then show ?thesis
    using True
    by (simp add: breturn_elem_unfold[OF assms(1,2,3)] borrowerReturn_def
          band2_return_spec[OF assms(2,3)])
next
  case False
  then show ?thesis
    by (auto simp add: breturn_elem_unfold[OF assms(1,2,3)] borrowerReturn_def
          band3_return_spec[OF assms(2,4)])
qed

lemma breturn_elem_partial:
  assumes "breturn_elem bk a = Some y"
  shows "y = borrowerReturn bk a"
proof -
  from assms have "AM bk 0 \<noteq> None" by (auto simp: breturn_elem_def split: bind_splits)
  then have pq: "p bk \<noteq> q bk" and b: "beta bk \<noteq> 0" by (simp_all add: AM_None)
  show ?thesis
  proof (cases "a > collateralLeveraged bk 0")
    case True
    then show ?thesis using assms breturn_elem_band1[OF pq b True]
      by (simp add: borrowerReturn_def)
  next
    case False
    with assms have "Across bk \<noteq> None"
      by (auto simp: breturn_elem_def AM_spec[OF pq b] split: bind_splits)
    then have q0: "q bk \<noteq> 0" by (simp add: Across_None)
    note u = breturn_elem_unfold[OF q0 pq b, of a]
    show ?thesis
    proof (cases "across bk < a \<and> a \<le> collateralLeveraged bk 0")
      case True
      then have "mon_divisor bk \<noteq> 0" using band2_divisor_nonzero[OF q0 pq b] by blast
      then show ?thesis using assms True u
        by (simp add: borrowerReturn_def band2_return_spec[OF pq b])
    next
      case nb2: False
      show ?thesis
      proof (cases "aMin bk \<le> a \<and> a \<le> across bk")
        case True
        with assms u False nb2 have b3: "band3_return bk a = Some y" by simp
        then have "monE bk a \<noteq> None" by (auto simp: band3_return_def split: bind_splits)
        then have "monE_divisor bk \<noteq> 0" by (simp add: monE_None)
        then show ?thesis using b3 True False nb2
          by (simp add: borrowerReturn_def band3_return_spec[OF pq])
      next
        case nb3: False
        then show ?thesis using assms u False nb2 by (simp add: borrowerReturn_def)
      qed
    qed
  qed
qed

text \<open>
  Claim C1. For every sequence of asset levels, \<open>breturn\<close> maps each element \<open>a\<close> by
  the four-band dispatch \<open>borrowerReturn\<close> of the specification: the no-monitor return
  for \<open>a > AM(0)\<close>, the leveraged formula for \<open>Across() < a \<le> AM(0)\<close>, the equity-only
  formula for \<open>Amin() \<le> a \<le> Across()\<close>, and 0 otherwise. Whenever \<open>breturn\<close> returns
  at all, it returns that list; and it does return when \<open>q\<close>, \<open>p - q\<close>, \<open>\<beta>\<close> and the
  divisor \<open>q + (\<alpha> - 1)\<cdot>p\<close> of \<open>monE\<close> are not zero (otherwise a division raises).
\<close>

theorem breturn_four_band_dispatch:
  "(breturn bk xs = Some ys \<longrightarrow> ys = map (borrowerReturn bk) xs)
   \<and> (q bk \<noteq> 0 \<and> p bk \<noteq> q bk \<and> beta bk \<noteq> 0 \<and> monE_divisor bk \<noteq> 0
        \<longrightarrow> breturn bk xs = Some (map (borrowerReturn bk) xs))"
proof (intro conjI impI)
  assume "breturn bk xs = Some ys"
  then show "ys = map (borrowerReturn bk) xs"
    unfolding breturn_def by (rule those_map_eq) (rule breturn_elem_partial)
next
  assume "q bk \<noteq> 0 \<and> p bk \<noteq> q bk \<and> beta bk \<noteq> 0 \<and> monE_divisor bk \<noteq> 0"
  then show "breturn bk xs = Some (map (borrowerReturn bk) xs)"
    unfolding breturn_def by (intro those_map_Some breturn_elem_total) simp_all
qed

lemmas eval_defs = breturn_def breturn_elem_def AM_def Across_def mcross_def Amin_def AMe_def
  mmax_def B_def mon_def monE_def band2_return_def band3_return_def pydiv_def mon_divisor_def
  monE_divisor_def init_def

theorem breturn_four_band_dispatch_witness:
  "q (init [] (13/10)) \<noteq> 0 \<and> p (init [] (13/10)) \<noteq> q (init [] (13/10))
   \<and> beta (init [] (13/10)) \<noteq> 0 \<and> monE_divisor (init [] (13/10)) \<noteq> 0
   \<and> breturn (init [] (13/10)) [50, 100, 120, 130, 140]
       = Some [0, 478 / 67, 15436 / 379, 64, 64]
   \<and> map (borrowerReturn (init [] (13/10))) [50, 100, 120, 130, 140]
       = [0, 478 / 67, 15436 / 379, 64, 64]"
proof -
  have n: "q (init [] (13/10)) \<noteq> 0 \<and> p (init [] (13/10)) \<noteq> q (init [] (13/10))
   \<and> beta (init [] (13/10)) \<noteq> 0 \<and> monE_divisor (init [] (13/10)) \<noteq> 0"
    by (simp add: init_def monE_divisor_def)
  have e: "breturn (init [] (13/10)) [50, 100, 120, 130, 140]
           = Some [0, 478 / 67, 15436 / 379, 64, 64]"
    by (simp add: eval_defs)
  show ?thesis
    using breturn_four_band_dispatch[of "init [] (13/10)" "[50, 100, 120, 130, 140]"
        "[0, 478 / 67, 15436 / 379, 64, 64]"] n e
    by simp
qed

section \<open>The four-band dispatch of nreach\<close>


lemma nreach_elem_unfold:
  assumes "q bk \<noteq> 0" "p bk \<noteq> q bk" "beta bk \<noteq> 0"
  shows "nreach_elem bk a =
     (if a > collateralLeveraged bk 0 then Some NaN
      else if across bk < a \<and> a \<le> collateralLeveraged bk 0 then band2_reach bk a
      else if aMin bk \<le> a \<and> a \<le> across bk then map_option Num (pydiv (K bk) (I bk + F bk))
      else Some (Num 0))"
  by (simp add: nreach_elem_def AM_spec[OF assms(2,3)] Across_spec[OF assms] Amin_spec[OF assms(2)])






lemmas reach_eval_defs = nreach_def nreach_elem_def band2_reach_def Im_bank_def npdiv_def


section \<open>The unguarded quotient of band 2\<close>

lemma those_map_nth:
  "those (map g xs) = Some ys \<Longrightarrow> i < length xs \<Longrightarrow> g (xs ! i) = Some (ys ! i)"
proof (induction xs arbitrary: ys i)
  case Nil
  then show ?case by simp
next
  case (Cons x xs)
  from Cons.prems(1) obtain y zs where y: "g x = Some y" and zs: "those (map g xs) = Some zs"
    and ys: "ys = y # zs"
    by (auto split: option.splits)
  show ?case
  proof (cases i)
    case 0
    then show ?thesis using y ys by simp
  next
    case (Suc j)
    then show ?thesis using Cons.IH[OF zs, of j] Cons.prems(2) ys by simp
  qed
qed

lemma nreach_single: "nreach bk [a] = map_option (\<lambda>y. [y]) (nreach_elem bk a)"
  by (cases "nreach_elem bk a") (simp_all add: nreach_def)

lemma band2_code_facts:
  assumes "AM bk 0 = Some a0" "Across bk = Some ac" "ac < a" "a \<le> a0"
  shows "q bk \<noteq> 0" "p bk \<noteq> q bk" "beta bk \<noteq> 0" "mon_divisor bk \<noteq> 0"
    "a0 = collateralLeveraged bk 0" "ac = across bk"
proof -
  from assms(2) have "Across bk \<noteq> None" by simp
  then show q0: "q bk \<noteq> 0" and pq: "p bk \<noteq> q bk" and b: "beta bk \<noteq> 0"
    by (simp_all add: Across_None)
  show a0: "a0 = collateralLeveraged bk 0" using assms(1) AM_spec[OF pq b, of 0] by simp
  show ac: "ac = across bk" using assms(2) Across_spec[OF q0 pq b] by simp
  show "mon_divisor bk \<noteq> 0"
    using band2_divisor_nonzero[OF q0 pq b, of a] assms(3,4) a0 ac by simp
qed

text \<open>
  Claim C7, as amended. \<open>nreach\<close> does not check the denominator of band 2. For an
  element \<open>a\<close> with \<open>Across() < a \<le> AM(0)\<close> the calls \<open>mon(a)\<close> and \<open>Im(mon(a))\<close>
  return, and the cell is the float64 quotient \<open>K / (Im(mon(a)) - F)\<close> whatever the
  sign of the denominator, at every position of a batch: a negative number when the
  denominator is negative and \<open>K\<close> positive, an infinity when the denominator is zero
  and \<open>K\<close> is not (not-a-number when both are zero). No error is raised.
\<close>

theorem nreach_band2_unguarded:
  assumes "AM bk 0 = Some a0" "Across bk = Some ac" "ac < a" "a \<le> a0"
  shows "\<exists>m e. mon bk a = Some m \<and> Im_bank bk m = Some e
           \<and> nreach bk [a] = Some [npdiv (K bk) (e - F bk)]
           \<and> (\<forall>xs ys i. nreach bk xs = Some ys \<and> i < length xs \<and> xs ! i = a
                 \<longrightarrow> ys ! i = npdiv (K bk) (e - F bk))
           \<and> (e - F bk < 0 \<and> 0 < K bk \<longrightarrow> (\<exists>r. nreach bk [a] = Some [Num r] \<and> r < 0))
           \<and> (e - F bk = 0 \<and> K bk \<noteq> 0 \<longrightarrow> nreach bk [a] = Some [Infinity])
           \<and> (e - F bk = 0 \<and> K bk = 0 \<longrightarrow> nreach bk [a] = Some [NaN])"
proof -
  note c = band2_code_facts[OF assms]
  define m where "m = optimalMonitoringLeveraged bk a"
  define e where "e = monitorEquityRequirement bk m"
  have m: "mon bk a = Some m" unfolding m_def by (rule mon_spec[OF c(2,3,4)])
  have e: "Im_bank bk m = Some e" unfolding e_def by (rule Im_spec[OF c(2,3)])
  have "nreach_elem bk a = band2_reach bk a"
    using assms(3,4) c(5,6) by (simp add: nreach_elem_unfold[OF c(1,2,3)])
  then have el: "nreach_elem bk a = Some (npdiv (K bk) (e - F bk))"
    by (simp add: band2_reach_def m e)
  then have r: "nreach bk [a] = Some [npdiv (K bk) (e - F bk)]"
    by (simp add: nreach_single)
  have g: "ys ! i = npdiv (K bk) (e - F bk)"
    if "nreach bk xs = Some ys \<and> i < length xs \<and> xs ! i = a" for xs ys i
    using those_map_nth[of "nreach_elem bk" xs ys i] that el by (simp add: nreach_def)
  have "e - F bk < 0 \<and> 0 < K bk \<longrightarrow> (\<exists>r. nreach bk [a] = Some [Num r] \<and> r < 0)"
    by (auto simp add: r npdiv_def divide_pos_neg)
  moreover have "e - F bk = 0 \<and> K bk \<noteq> 0 \<longrightarrow> nreach bk [a] = Some [Infinity]"
    by (simp add: r npdiv_def)
  moreover have "e - F bk = 0 \<and> K bk = 0 \<longrightarrow> nreach bk [a] = Some [NaN]"
    by (simp add: r npdiv_def)
  ultimately show ?thesis using m e r g by blast
qed

theorem nreach_band2_unguarded_witness:
  "AM (init [] 1) 0 = Some 130 \<and> Across (init [] 1) = Some (3655 / 41)
   \<and> (3655 / 41 :: real) < 130 \<and> (130 :: real) \<le> 130
   \<and> mon (init [] 1) 130 = Some 0 \<and> Im_bank (init [] 1) 0 = Some 0
   \<and> 0 - F (init [] 1) = 0 \<and> K (init [] 1) \<noteq> 0
   \<and> nreach (init [] 1) [130] = Some [Infinity]
   \<and> AM ((init [] 1)\<lparr>F := 10\<rparr>) 0 = Some 130
   \<and> Across ((init [] 1)\<lparr>F := 10\<rparr>) = Some (3655 / 41)
   \<and> (3655 / 41 :: real) < 129 \<and> (129 :: real) \<le> 130
   \<and> mon ((init [] 1)\<lparr>F := 10\<rparr>) 129 = Some (30 / 67)
   \<and> Im_bank ((init [] 1)\<lparr>F := 10\<rparr>) (30 / 67) = Some (164 / 67)
   \<and> 164 / 67 - F ((init [] 1)\<lparr>F := 10\<rparr>) < 0 \<and> 0 < K ((init [] 1)\<lparr>F := 10\<rparr>)
   \<and> (\<exists>r. nreach ((init [] 1)\<lparr>F := 10\<rparr>) [129] = Some [Num r] \<and> r < 0)"
proof -
  have 1: "AM (init [] 1) 0 = Some 130" "Across (init [] 1) = Some (3655 / 41)"
    "(3655 / 41 :: real) < 130" "(130 :: real) \<le> 130"
    by (simp_all add: eval_defs)
  have 2: "AM ((init [] 1)\<lparr>F := 10\<rparr>) 0 = Some 130"
    "Across ((init [] 1)\<lparr>F := 10\<rparr>) = Some (3655 / 41)"
    "(3655 / 41 :: real) < 129" "(129 :: real) \<le> 130"
    by (simp_all add: eval_defs)
  have 3: "mon (init [] 1) 130 = Some 0" "Im_bank (init [] 1) 0 = Some 0"
    "0 - F (init [] 1) = 0" "K (init [] 1) \<noteq> 0"
    "mon ((init [] 1)\<lparr>F := 10\<rparr>) 129 = Some (30 / 67)"
    "Im_bank ((init [] 1)\<lparr>F := 10\<rparr>) (30 / 67) = Some (164 / 67)"
    "164 / 67 - F ((init [] 1)\<lparr>F := 10\<rparr>) < 0" "0 < K ((init [] 1)\<lparr>F := 10\<rparr>)"
    by (simp_all add: eval_defs Im_bank_def)
  obtain m e where a: "mon (init [] 1) 130 = Some m" "Im_bank (init [] 1) m = Some e"
      "e - F (init [] 1) = 0 \<and> K (init [] 1) \<noteq> 0
        \<longrightarrow> nreach (init [] 1) [130] = Some [Infinity]"
    using nreach_band2_unguarded[OF 1] by blast
  have m: "m = 0" using a(1) 3(1) by simp
  have "e = 0" using a(2)[unfolded m] 3(2) by simp
  then have i: "nreach (init [] 1) [130] = Some [Infinity]" using a(3) 3(3,4) by simp
  obtain m' e' where b: "mon ((init [] 1)\<lparr>F := 10\<rparr>) 129 = Some m'"
      "Im_bank ((init [] 1)\<lparr>F := 10\<rparr>) m' = Some e'"
      "e' - F ((init [] 1)\<lparr>F := 10\<rparr>) < 0 \<and> 0 < K ((init [] 1)\<lparr>F := 10\<rparr>)
        \<longrightarrow> (\<exists>r. nreach ((init [] 1)\<lparr>F := 10\<rparr>) [129] = Some [Num r] \<and> r < 0)"
    using nreach_band2_unguarded[OF 2] by blast
  have m': "m' = 30 / 67" using b(1) 3(5) by simp
  have "e' = 164 / 67" using b(2)[unfolded m'] 3(6) by simp
  then have n: "\<exists>r. nreach ((init [] 1)\<lparr>F := 10\<rparr>) [129] = Some [Num r] \<and> r < 0"
    using b(3) 3(7,8) by simp
  show ?thesis using 1 2 3 i n by simp
qed

text \<open>
  The claim as stated fails: for \<open>Bank(A, 1.0)\<close> the element 130 = \<open>AM(0)\<close> lies in
  band 2 with the denominator 0, and the cell is an infinity; with \<open>F\<close> set to 10 the
  element 129 lies in band 2 with a negative denominator, and the cell is the negative
  count -402000/253.
\<close>

theorem nreach_unguarded_counterexample:
  "AM (init [] 1) 0 = Some 130 \<and> Across (init [] 1) = Some (3655 / 41)
   \<and> (3655 / 41 :: real) < 130
   \<and> mon (init [] 1) 130 = Some 0 \<and> Im_bank (init [] 1) 0 = Some 0
   \<and> 0 - F (init [] 1) = 0
   \<and> nreach (init [] 1) [130] = Some [Infinity]
   \<and> nreach ((init [] 1)\<lparr>F := 10\<rparr>) [129] = Some [Num (- (402000 / 253))]"
  by (simp add: reach_eval_defs eval_defs)

section \<open>The zero denominator at the upper boundary of band 2\<close>

text \<open>
  Claim C10, as amended. For every parameter set with \<open>0 < q < p\<close>, \<open>\<beta> \<noteq> 0\<close>,
  \<open>0 < I\<close> and a positive divisor \<open>(\<alpha> - 1)\<cdot>\<beta>\<cdot>p + \<gamma>\<cdot>q\<close> of \<open>mon\<close>, the asset level
  \<open>AM(0)\<close> lies inside band 2 (\<open>Across() < AM(0)\<close>), \<open>mon(AM(0))\<close> is exactly 0, so is
  \<open>Im\<close> of it, and \<open>nreach\<close> stores \<open>K / (0 - F)\<close> for that element: an infinity when
  \<open>F = 0\<close> and \<open>K \<noteq> 0\<close>.
\<close>

theorem zero_denominator_inside_band2:
  assumes "0 < q bk" "q bk < p bk" "beta bk \<noteq> 0" "0 < I bk" "0 < mon_divisor bk"
  shows "\<exists>a0 ac. AM bk 0 = Some a0 \<and> Across bk = Some ac \<and> ac < a0
           \<and> mon bk a0 = Some 0 \<and> Im_bank bk 0 = Some 0
           \<and> nreach bk [a0] = Some [npdiv (K bk) (0 - F bk)]
           \<and> (F bk = 0 \<and> K bk \<noteq> 0 \<longrightarrow> nreach bk [a0] = Some [Infinity])"
proof -
  have q0: "q bk \<noteq> 0" and pq: "p bk \<noteq> q bk" and D: "mon_divisor bk \<noteq> 0"
    using assms by auto
  note b = assms(3)
  define a0 where "a0 = collateralLeveraged bk 0"
  have a0: "AM bk 0 = Some a0" unfolding a0_def by (rule AM_spec[OF pq b])
  have ac: "Across bk = Some (across bk)" by (rule Across_spec[OF q0 pq b])
  have "0 < I bk * mon_divisor bk / q bk" using assms(1,4,5) by simp
  then have lt: "across bk < a0" using across_linear[OF pq b q0] by (simp add: a0_def)
  have m: "mon bk a0 = Some 0"
    by (simp add: mon_spec[OF pq b D] optimalMonitoringLeveraged_def a0_def)
  have e: "Im_bank bk 0 = Some 0"
    by (simp add: Im_spec[OF pq b] monitorEquityRequirement_def)
  have "nreach_elem bk a0 = band2_reach bk a0"
    using lt by (simp add: nreach_elem_unfold[OF q0 pq b] a0_def)
  then have r: "nreach bk [a0] = Some [npdiv (K bk) (0 - F bk)]"
    by (simp add: nreach_single band2_reach_def m e)
  have "F bk = 0 \<and> K bk \<noteq> 0 \<longrightarrow> nreach bk [a0] = Some [Infinity]"
    by (simp add: r npdiv_def)
  then show ?thesis using a0 ac lt m e r by blast
qed

theorem zero_denominator_inside_band2_witness:
  "0 < q (init [] 1) \<and> q (init [] 1) < p (init [] 1) \<and> beta (init [] 1) \<noteq> 0
   \<and> 0 < I (init [] 1) \<and> 0 < mon_divisor (init [] 1)
   \<and> F (init [] 1) = 0 \<and> K (init [] 1) \<noteq> 0
   \<and> (\<exists>a0. AM (init [] 1) 0 = Some a0 \<and> a0 = 130 \<and> mon (init [] 1) a0 = Some 0
          \<and> nreach (init [] 1) [a0] = Some [Infinity])"
proof -
  have h: "0 < q (init [] 1)" "q (init [] 1) < p (init [] 1)" "beta (init [] 1) \<noteq> 0"
    "0 < I (init [] 1)" "0 < mon_divisor (init [] 1)"
    by (simp_all add: init_def mon_divisor_def)
  have k: "F (init [] 1) = 0" "K (init [] 1) \<noteq> 0" by (simp_all add: init_def)
  obtain a0 where a: "AM (init [] 1) 0 = Some a0" "mon (init [] 1) a0 = Some 0"
      "F (init [] 1) = 0 \<and> K (init [] 1) \<noteq> 0 \<longrightarrow> nreach (init [] 1) [a0] = Some [Infinity]"
    using zero_denominator_inside_band2[OF h] by blast
  have "a0 = 130" using a(1) by (simp add: eval_defs)
  then show ?thesis using h k a by simp
qed

text \<open>
  Without the positive divisor the claim fails: \<open>Bank(A, 2.0)\<close> satisfies the
  constraints of the specification and has \<open>F = 0\<close>, but \<open>Across()\<close> is above
  \<open>AM(0) = 130\<close>, so that no element is in band 2; the element 130 falls below
  \<open>Amin()\<close> and its cell is 0. For \<open>bank_zero_divisor\<close> the divisor is zero and
  \<open>mon(AM(0))\<close> has no value.
\<close>

theorem zero_denominator_counterexample:
  "spec_valid (init [] 2) \<and> F (init [] 2) = 0
   \<and> AM (init [] 2) 0 = Some 130 \<and> Across (init [] 2) = Some (6080 / 41)
   \<and> \<not> ((6080 / 41 :: real) < 130)
   \<and> nreach (init [] 2) [130] = Some [Num 0]
   \<and> spec_valid bank_zero_divisor \<and> AM bank_zero_divisor 0 = Some 230
   \<and> mon bank_zero_divisor 230 = None"
  by (simp add: spec_valid_def bank_zero_divisor_def reach_eval_defs eval_defs)

section \<open>Construction\<close>

text \<open>
  Claim C6, as amended. \<open>Bank(A, beta)\<close> validates nothing and cannot fail: it sets
  \<open>p = 0.97\<close> and \<open>q = 0.82\<close> whatever its arguments are, so \<open>q < p\<close> holds for every
  bank it returns. On a bank whose \<open>q\<close> has been set equal to \<open>p\<close>, \<open>breturn\<close> and
  \<open>nreach\<close> raise ZeroDivisionError for every non-empty input, at the first division
  by \<open>p - q\<close>.
\<close>

theorem init_no_validation:
  "p (init xs bet) = 97 / 100 \<and> q (init xs bet) = 82 / 100
   \<and> q (init xs bet) < p (init xs bet)
   \<and> (p bk = q bk \<longrightarrow> breturn bk (a # as) = None \<and> nreach bk (a # as) = None)"
proof -
  have "breturn bk (a # as) = None \<and> nreach bk (a # as) = None" if "p bk = q bk"
  proof -
    have "AM bk 0 = None" using that by (simp add: AM_None)
    then show ?thesis by (simp add: breturn_def nreach_def breturn_elem_def nreach_elem_def)
  qed
  then show ?thesis by (simp add: init_def)
qed

theorem init_no_validation_witness:
  "p ((init [] 1)\<lparr>q := 97 / 100\<rparr>) = q ((init [] 1)\<lparr>q := 97 / 100\<rparr>)
   \<and> breturn ((init [] 1)\<lparr>q := 97 / 100\<rparr>) [100] = None
   \<and> nreach ((init [] 1)\<lparr>q := 97 / 100\<rparr>) [100] = None"
  using init_no_validation[of "[]" 1 "(init [] 1)\<lparr>q := 97 / 100\<rparr>" 100 "[]"]
  by (simp add: init_def)

text \<open>
  The claim as stated fails: nothing rejects a bank whose \<open>q\<close> has been set above \<open>p\<close>,
  and \<open>breturn\<close> and \<open>nreach\<close> compute on it without any error.
\<close>

theorem init_no_validation_counterexample:
  "p ((init [200] 1)\<lparr>q := 99 / 100\<rparr>) \<le> q ((init [200] 1)\<lparr>q := 99 / 100\<rparr>)
   \<and> breturn ((init [200] 1)\<lparr>q := 99 / 100\<rparr>) [200] = Some [64]
   \<and> nreach ((init [200] 1)\<lparr>q := 99 / 100\<rparr>) [200] = Some [NaN]"
  by (simp add: reach_eval_defs eval_defs)

section \<open>Continuity at the boundary of bands 2 and 3\<close>

lemma optimalMonitoringLeveraged_across:
  assumes "q bk \<noteq> 0" "p bk \<noteq> q bk" "beta bk \<noteq> 0" "mon_divisor bk \<noteq> 0"
  shows "optimalMonitoringLeveraged bk (across bk) = mCross bk"
proof -
  have "collateralLeveraged bk 0 - across bk = I bk * mon_divisor bk / q bk"
    using across_linear[OF assms(2,3,1)] by simp
  then have "optimalMonitoringLeveraged bk (across bk)
             = (I bk * mon_divisor bk / q bk) * beta bk * (p bk - q bk) / mon_divisor bk"
    by (simp add: optimalMonitoringLeveraged_def mon_divisor_def)
  also have "\<dots> = mCross bk"
    using assms(1,4) by (simp add: mCross_def field_simps)
  finally show ?thesis .
qed

lemma optimalMonitoringEquityOnly_across:
  assumes "q bk \<noteq> 0" "p bk \<noteq> q bk" "beta bk \<noteq> 0" "monE_divisor bk \<noteq> 0"
  shows "optimalMonitoringEquityOnly bk (across bk) = mCross bk"
proof -
  have "collateralEquityOnly bk 0 - across bk
        = (beta bk - gamma bk) * I bk + I bk * mon_divisor bk / q bk"
    using across_linear[OF assms(2,3,1)] collateralEquityOnly_zero[OF assms(2,3)] by simp
  also have "\<dots> = I bk * ((beta bk - gamma bk) * q bk + mon_divisor bk) / q bk"
    using assms(1) by (simp add: field_simps)
  also have "\<dots> = I bk * (beta bk * monE_divisor bk) / q bk"
    by (simp only: divisors_relation)
  finally have "optimalMonitoringEquityOnly bk (across bk)
                = (I bk * (beta bk * monE_divisor bk) / q bk) * (p bk - q bk) / monE_divisor bk"
    by (simp add: optimalMonitoringEquityOnly_def monE_divisor_def)
  also have "\<dots> = mCross bk"
    using assms(1,4) by (simp add: mCross_def field_simps)
  finally show ?thesis .
qed

lemma mCross_factor:
  assumes "q bk \<noteq> 0" "p bk \<noteq> q bk" "beta bk \<noteq> 0"
  shows "mCross bk * (1 + ((beta bk - gamma bk) / beta bk) * (q bk / (p bk - q bk)))
         = mCross bk + (beta bk - gamma bk) * I bk"
proof -
  have d: "p bk - q bk \<noteq> 0" using assms(2) by simp
  have "mCross bk * (((beta bk - gamma bk) / beta bk) * (q bk / (p bk - q bk)))
        = (beta bk - gamma bk) * I bk"
    unfolding mCross_def using assms(1,3) d by simp
  then show ?thesis by (simp add: distrib_left)
qed

text \<open>
  Claim C4, as amended. For every parameter set with \<open>q\<close>, \<open>p - q\<close> and \<open>\<beta>\<close> not zero
  and with both divisors of the monitoring formulas, \<open>(\<alpha> - 1)\<cdot>\<beta>\<cdot>p + \<gamma>\<cdot>q\<close> and
  \<open>q + (\<alpha> - 1)\<cdot>p\<close>, not zero, the expression of band 2 and the expression of band 3
  both return at \<open>A = Across()\<close>, with the same value.
\<close>

theorem continuous_at_across:
  assumes "q bk \<noteq> 0" "p bk \<noteq> q bk" "beta bk \<noteq> 0"
    and "mon_divisor bk \<noteq> 0" "monE_divisor bk \<noteq> 0"
  shows "\<exists>ac v. Across bk = Some ac \<and> band2_return bk ac = Some v
               \<and> band3_return bk ac = Some v"
proof -
  have "band2_return bk (across bk)
        = Some (p bk * X bk - gamma bk * I bk - f bk
                - mCross bk * (1 + ((beta bk - gamma bk) / beta bk) * (q bk / (p bk - q bk))))"
    by (simp only: band2_return_spec[OF assms(2,3,4)]
          optimalMonitoringLeveraged_across[OF assms(1,2,3,4)])
  then have "band2_return bk (across bk)
        = Some (p bk * X bk - beta bk * I bk - f bk - mCross bk)"
    unfolding mCross_factor[OF assms(1,2,3)] by (simp add: algebra_simps)
  moreover have "band3_return bk (across bk)
        = Some (p bk * X bk - beta bk * I bk - f bk - mCross bk)"
    by (simp add: band3_return_spec[OF assms(2,5)]
          optimalMonitoringEquityOnly_across[OF assms(1,2,3,5)])
  ultimately show ?thesis using Across_spec[OF assms(1,2,3)] by simp
qed

theorem continuous_at_across_witness:
  "q (init [] 1) \<noteq> 0 \<and> p (init [] 1) \<noteq> q (init [] 1) \<and> beta (init [] 1) \<noteq> 0
   \<and> mon_divisor (init [] 1) \<noteq> 0 \<and> monE_divisor (init [] 1) \<noteq> 0
   \<and> (\<exists>ac v. Across (init [] 1) = Some ac \<and> ac = 3655 / 41
           \<and> band2_return (init [] 1) ac = Some v \<and> band3_return (init [] 1) ac = Some v)"
proof -
  have h: "q (init [] 1) \<noteq> 0" "p (init [] 1) \<noteq> q (init [] 1)" "beta (init [] 1) \<noteq> 0"
    "mon_divisor (init [] 1) \<noteq> 0" "monE_divisor (init [] 1) \<noteq> 0"
    by (simp_all add: init_def mon_divisor_def monE_divisor_def)
  obtain ac v where a: "Across (init [] 1) = Some ac" "band2_return (init [] 1) ac = Some v"
      "band3_return (init [] 1) ac = Some v"
    using continuous_at_across[OF h] by blast
  have "ac = 3655 / 41" using a(1) by (simp add: eval_defs)
  then show ?thesis using h a by blast
qed

text \<open>
  The claim as stated fails for \<open>bank_zero_divisor\<close>, which satisfies the constraints
  of the specification: the divisor of \<open>mon\<close> is zero, so the expression of band 2
  has no value at \<open>Across() = 230\<close> (the division raises), while the expression of
  band 3 is 70 there. \<open>Across()\<close> coincides with \<open>AM(0)\<close>, band 2 is empty, and
  \<open>breturn\<close> jumps from 70 at 230 to 370 just above. For \<open>bank_zero_monE_divisor\<close>
  it is the expression of band 3 that has no value at \<open>Across() = 330\<close>.
\<close>

theorem continuous_at_across_counterexample:
  "spec_valid bank_zero_divisor \<and> mon_divisor bank_zero_divisor = 0
   \<and> Across bank_zero_divisor = Some 230
   \<and> band2_return bank_zero_divisor 230 = None
   \<and> band3_return bank_zero_divisor 230 = Some 70
   \<and> breturn bank_zero_divisor [230, 231] = Some [70, 370]
   \<and> spec_valid bank_zero_monE_divisor \<and> monE_divisor bank_zero_monE_divisor = 0
   \<and> Across bank_zero_monE_divisor = Some 330
   \<and> band2_return bank_zero_monE_divisor 330 = Some 70
   \<and> band3_return bank_zero_monE_divisor 330 = None"
  by (simp add: spec_valid_def bank_zero_divisor_def bank_zero_monE_divisor_def eval_defs)

section \<open>Monotonicity of the borrower return\<close>

lemma band_factor_ge_one:
  assumes "0 < q bk" "q bk < p bk" "0 < beta bk" "gamma bk \<le> beta bk"
  shows "1 \<le> 1 + ((beta bk - gamma bk) / beta bk) * (q bk / (p bk - q bk))"
proof -
  have "0 \<le> (beta bk - gamma bk) / beta bk" using assms(3,4) by simp
  moreover have "0 \<le> q bk / (p bk - q bk)" using assms(1,2) by simp
  ultimately have "0 \<le> ((beta bk - gamma bk) / beta bk) * (q bk / (p bk - q bk))"
    by (rule mult_nonneg_nonneg)
  then show ?thesis by linarith
qed

lemma optimalMonitoringLeveraged_antimono:
  assumes "q bk < p bk" "0 < beta bk" "0 < mon_divisor bk" "a1 \<le> a2"
  shows "optimalMonitoringLeveraged bk a2 \<le> optimalMonitoringLeveraged bk a1"
proof -
  have "0 \<le> beta bk * (p bk - q bk)" using assms(1,2) by simp
  then have "(collateralLeveraged bk 0 - a2) * (beta bk * (p bk - q bk))
             \<le> (collateralLeveraged bk 0 - a1) * (beta bk * (p bk - q bk))"
    using assms(4) by (intro mult_right_mono) simp_all
  then show ?thesis
    using assms(3)
    by (simp add: optimalMonitoringLeveraged_def mon_divisor_def divide_right_mono mult.assoc)
qed

lemma optimalMonitoringLeveraged_nonneg:
  assumes "q bk < p bk" "0 < beta bk" "0 < mon_divisor bk" "a \<le> collateralLeveraged bk 0"
  shows "0 \<le> optimalMonitoringLeveraged bk a"
proof -
  have "optimalMonitoringLeveraged bk (collateralLeveraged bk 0) = 0"
    by (simp add: optimalMonitoringLeveraged_def)
  then show ?thesis using optimalMonitoringLeveraged_antimono[OF assms] by simp
qed

lemma optimalMonitoringEquityOnly_antimono:
  assumes "q bk < p bk" "0 < monE_divisor bk" "a1 \<le> a2"
  shows "optimalMonitoringEquityOnly bk a2 \<le> optimalMonitoringEquityOnly bk a1"
proof -
  have "(collateralEquityOnly bk 0 - a2) * (p bk - q bk)
        \<le> (collateralEquityOnly bk 0 - a1) * (p bk - q bk)"
    using assms(1,3) by (intro mult_right_mono) simp_all
  then show ?thesis
    using assms(2)
    by (simp add: optimalMonitoringEquityOnly_def monE_divisor_def divide_right_mono)
qed

lemma optimalMonitoringEquityOnly_nonneg:
  assumes "q bk < p bk" "beta bk \<noteq> 0" "gamma bk \<le> beta bk" "0 \<le> I bk"
    "0 < monE_divisor bk" "a \<le> collateralLeveraged bk 0"
  shows "0 \<le> optimalMonitoringEquityOnly bk a"
proof -
  have pq: "p bk \<noteq> q bk" using assms(1) by simp
  have "0 \<le> (beta bk - gamma bk) * I bk" using assms(3,4) by simp
  then have "0 \<le> collateralEquityOnly bk 0 - a"
    using collateralEquityOnly_zero[OF pq assms(2)] assms(6) by simp
  then have "0 \<le> (collateralEquityOnly bk 0 - a) * (p bk - q bk)" using assms(1) by simp
  then show ?thesis
    using assms(5) by (simp add: optimalMonitoringEquityOnly_def monE_divisor_def)
qed

text \<open>Monotonicity of the dispatch, by cases on the bands of the two asset levels.\<close>

lemma borrowerReturn_mono:
  assumes h: "0 < q bk" "q bk < p bk" "0 < beta bk" "gamma bk \<le> beta bk" "0 \<le> I bk"
    "0 < monE_divisor bk"
    and a: "aMin bk \<le> a1" "a1 \<le> a2"
  shows "borrowerReturn bk a1 \<le> borrowerReturn bk a2"
proof -
  have q0: "q bk \<noteq> 0" and pq: "p bk \<noteq> q bk" and b: "beta bk \<noteq> 0" and E: "monE_divisor bk \<noteq> 0"
    using h by auto
  define c1 where "c1 = p bk * X bk - gamma bk * I bk - f bk"
  define c3 where "c3 = p bk * X bk - beta bk * I bk - f bk"
  define k where "k = 1 + ((beta bk - gamma bk) / beta bk) * (q bk / (p bk - q bk))"
  define r2 where "r2 = (\<lambda>a. c1 - optimalMonitoringLeveraged bk a * k)"
  define r3 where "r3 = (\<lambda>a. c3 - optimalMonitoringEquityOnly bk a)"
  have k1: "1 \<le> k" unfolding k_def by (rule band_factor_ge_one[OF h(1,2,3,4)])
  have c31: "c3 \<le> c1" using h(4,5) by (simp add: c1_def c3_def mult_right_mono)
  have br: "borrowerReturn bk a =
      (if a > collateralLeveraged bk 0 then c1
       else if across bk < a \<and> a \<le> collateralLeveraged bk 0 then r2 a
       else if aMin bk \<le> a \<and> a \<le> across bk then r3 a else 0)" for a
    by (simp add: borrowerReturn_def c1_def c3_def k_def r2_def r3_def)
  have r3_mono: "r3 x \<le> r3 y" if "x \<le> y" for x y
    using optimalMonitoringEquityOnly_antimono[OF h(2,6) that] by (simp add: r3_def)
  have r3_c1: "r3 x \<le> c1" if "x \<le> collateralLeveraged bk 0" for x
    using optimalMonitoringEquityOnly_nonneg[OF h(2) b h(4,5,6) that] c31 by (simp add: r3_def)
  have r2_mono: "r2 x \<le> r2 y" if "x \<le> y" "0 < mon_divisor bk" for x y
  proof -
    have "optimalMonitoringLeveraged bk y * k \<le> optimalMonitoringLeveraged bk x * k"
      using optimalMonitoringLeveraged_antimono[OF h(2,3) that(2,1)] k1
      by (intro mult_right_mono) simp_all
    then show ?thesis by (simp add: r2_def)
  qed
  have r2_c1: "r2 x \<le> c1" if "x \<le> collateralLeveraged bk 0" "0 < mon_divisor bk" for x
  proof -
    have "0 \<le> optimalMonitoringLeveraged bk x * k"
      using optimalMonitoringLeveraged_nonneg[OF h(2,3) that(2,1)] k1 by simp
    then show ?thesis by (simp add: r2_def)
  qed
  have r23: "r2 (across bk) = r3 (across bk)" if "0 < mon_divisor bk"
  proof -
    have D: "mon_divisor bk \<noteq> 0" using that by simp
    have "r2 (across bk) = c1 - (mCross bk + (beta bk - gamma bk) * I bk)"
      by (simp only: r2_def k_def optimalMonitoringLeveraged_across[OF q0 pq b D]
            mCross_factor[OF q0 pq b])
    also have "\<dots> = c3 - mCross bk" by (simp add: c1_def c3_def algebra_simps)
    also have "\<dots> = r3 (across bk)"
      by (simp only: r3_def optimalMonitoringEquityOnly_across[OF q0 pq b E])
    finally show ?thesis .
  qed
  show ?thesis
  proof (cases "a1 > collateralLeveraged bk 0")
    case True
    then show ?thesis using a(2) by (simp add: br)
  next
    case n1: False
    show ?thesis
    proof (cases "across bk < a1")
      case True
      then have D: "0 < mon_divisor bk"
        using band2_divisor_pos[OF h(1,2) b h(5), of a1] n1 by simp
      show ?thesis
      proof (cases "a2 > collateralLeveraged bk 0")
        case True
        then show ?thesis using n1 \<open>across bk < a1\<close> r2_c1[OF _ D, of a1] by (simp add: br)
      next
        case False
        then show ?thesis using n1 \<open>across bk < a1\<close> a(2) r2_mono[OF a(2) D] by (simp add: br)
      qed
    next
      case n2: False
      then have b1: "borrowerReturn bk a1 = r3 a1" using n1 a(1) by (simp add: br)
      show ?thesis
      proof (cases "a2 > collateralLeveraged bk 0")
        case True
        then show ?thesis using b1 r3_c1[of a1] n1 by (simp add: br)
      next
        case m1: False
        show ?thesis
        proof (cases "across bk < a2")
          case True
          then have D: "0 < mon_divisor bk"
            using band2_divisor_pos[OF h(1,2) b h(5), of a2] m1 by simp
          have "r3 a1 \<le> r3 (across bk)" using n2 by (intro r3_mono) simp
          also have "\<dots> = r2 (across bk)" using r23[OF D] by simp
          also have "\<dots> \<le> r2 a2" using True by (intro r2_mono D) simp
          finally show ?thesis using b1 True m1 by (simp add: br)
        next
          case False
          then show ?thesis using b1 m1 a r3_mono[OF a(2)] by (simp add: br)
        qed
      qed
    qed
  qed
qed

lemma breturn_pair:
  "breturn_elem bk a1 = Some r1 \<Longrightarrow> breturn_elem bk a2 = Some r2
   \<Longrightarrow> breturn bk [a1, a2] = Some [r1, r2]"
  by (simp add: breturn_def)

text \<open>
  Claim C5, as amended. For every parameter set with \<open>0 < q < p\<close>, \<open>0 < \<beta>\<close>,
  \<open>\<gamma> \<le> \<beta>\<close>, \<open>0 \<le> I\<close> and a positive divisor \<open>q + (\<alpha> - 1)\<cdot>p\<close> of \<open>monE\<close>, and for
  all asset levels \<open>a1 \<le> a2\<close> at or above \<open>Amin()\<close>, \<open>breturn\<close> returns on \<open>[a1, a2]\<close>
  and the return at \<open>a1\<close> is at most the return at \<open>a2\<close>.
\<close>

theorem breturn_monotone:
  assumes "0 < q bk" "q bk < p bk" "0 < beta bk" "gamma bk \<le> beta bk" "0 \<le> I bk"
    "0 < monE_divisor bk"
    and "Amin bk = Some am" "am \<le> a1" "a1 \<le> a2"
  shows "\<exists>r1 r2. breturn bk [a1, a2] = Some [r1, r2] \<and> r1 \<le> r2"
proof -
  have q0: "q bk \<noteq> 0" and pq: "p bk \<noteq> q bk" and b: "beta bk \<noteq> 0" and E: "monE_divisor bk \<noteq> 0"
    using assms by auto
  have "am = aMin bk" using assms(7) Amin_spec[OF pq] by simp
  then have "borrowerReturn bk a1 \<le> borrowerReturn bk a2"
    using borrowerReturn_mono[OF assms(1-6) _ assms(9)] assms(8) by simp
  moreover have "breturn bk [a1, a2] = Some [borrowerReturn bk a1, borrowerReturn bk a2]"
    by (intro breturn_pair breturn_elem_total[OF q0 pq b E])
  ultimately show ?thesis by blast
qed

theorem breturn_monotone_witness:
  "0 < q (init [] 1) \<and> q (init [] 1) < p (init [] 1) \<and> 0 < beta (init [] 1)
   \<and> gamma (init [] 1) \<le> beta (init [] 1) \<and> 0 \<le> I (init [] 1)
   \<and> 0 < monE_divisor (init [] 1)
   \<and> Amin (init [] 1) = Some (- (194 / 15)) \<and> - (194 / 15) \<le> (100 :: real)
   \<and> (100 :: real) \<le> 120
   \<and> (\<exists>r1 r2. breturn (init [] 1) [100, 120] = Some [r1, r2] \<and> r1 \<le> r2)"
proof -
  have h: "0 < q (init [] 1)" "q (init [] 1) < p (init [] 1)" "0 < beta (init [] 1)"
    "gamma (init [] 1) \<le> beta (init [] 1)" "0 \<le> I (init [] 1)"
    "0 < monE_divisor (init [] 1)"
    by (simp_all add: init_def monE_divisor_def)
  have a: "Amin (init [] 1) = Some (- (194 / 15))" "- (194 / 15) \<le> (100 :: real)"
    "(100 :: real) \<le> 120"
    by (simp_all add: eval_defs)
  show ?thesis using breturn_monotone[OF h a] h a by blast
qed

text \<open>
  The claim as stated fails without either added condition. \<open>Bank(A, 0.5)\<close> has
  \<open>\<beta> < \<gamma>\<close>: the levels 100 and 120 are in band 2 and the return falls from about
  81.4 to about 69.8. \<open>bank_unprofitable\<close> has \<open>\<beta> = \<gamma>\<close> and a negative divisor of
  \<open>monE\<close>: the levels 60 and 110 are in band 3 and the return falls from 0 to -50.
\<close>

theorem breturn_monotone_counterexample:
  "spec_valid (init [] (1/2)) \<and> Amin (init [] (1/2)) = Some (- (873 / 5))
   \<and> - (873 / 5) \<le> (100 :: real) \<and> (100 :: real) \<le> 120
   \<and> breturn (init [] (1/2)) [100, 120] = Some [6268 / 77, 16124 / 231]
   \<and> \<not> (6268 / 77 \<le> (16124 / 231 :: real))
   \<and> spec_valid bank_unprofitable \<and> gamma bank_unprofitable \<le> beta bank_unprofitable
   \<and> Amin bank_unprofitable = Some 60 \<and> (60 :: real) \<le> 110
   \<and> breturn bank_unprofitable [60, 110] = Some [0, - 50]
   \<and> \<not> (0 \<le> (- 50 :: real))"
  by (simp add: spec_valid_def bank_unprofitable_def eval_defs)

end
